theory Spec2Isabelle
  imports Complex_Main "HOL-Library.Multiset" "HOL-Library.Log_Nat"
begin

section \<open>Values, errors and strings\<close>

text \<open>
  The chat server (\<^verbatim>\<open>server.py\<close>) and the chat client (\<^verbatim>\<open>client.py\<close>) exchange
  one JSON document per line. A decoded document is a Python value: \<^verbatim>\<open>None\<close>,
  a \<^verbatim>\<open>bool\<close>, an \<^verbatim>\<open>int\<close>, a \<^verbatim>\<open>float\<close>, a \<^verbatim>\<open>str\<close>, a \<^verbatim>\<open>list\<close> or a
  \<^verbatim>\<open>dict\<close> with string keys. A dict is an association list with \<open>map_of\<close> as its
  lookup. A finite \<^verbatim>\<open>float\<close> is \<open>PFloat\<close> of the real number it stands for; \<^verbatim>\<open>inf\<close>,
  \<^verbatim>\<open>-inf\<close> and \<^verbatim>\<open>nan\<close>, which \<^verbatim>\<open>json.loads\<close> gives for \<^verbatim>\<open>Infinity\<close>,
  \<^verbatim>\<open>-Infinity\<close>, \<^verbatim>\<open>NaN\<close> and for a literal beyond the range, are values of their own.
  \<^verbatim>\<open>-0.0\<close> is not told apart from \<^verbatim>\<open>0.0\<close>: the two compare equal.
\<close>

datatype pyval =
    PNone
  | PBool bool
  | PInt int
  | PFloat real
  | PInf
  | PNegInf
  | PNaN
  | PStr string
  | PList "pyval list"
  | PDict "(string \<times> pyval) list"

text \<open>
  The exceptions that the modelled code can meet: \<^verbatim>\<open>msg.get\<close> on a value that is not
  a dict raises \<^verbatim>\<open>AttributeError\<close>, a failed \<^verbatim>\<open>sendall\<close> raises \<^verbatim>\<open>OSError\<close>, an
  \<^verbatim>\<open>int\<close> beyond the range of a \<^verbatim>\<open>float\<close> raises \<^verbatim>\<open>OverflowError\<close> when it meets
  one in arithmetic, a value that is no number raises \<^verbatim>\<open>TypeError\<close> there, and
  \<^verbatim>\<open>json.loads\<close> can raise \<^verbatim>\<open>ValueError\<close> or \<^verbatim>\<open>RecursionError\<close> besides its
  \<^verbatim>\<open>JSONDecodeError\<close>. Each carries the text that \<^verbatim>\<open>str(e)\<close> gives.
\<close>

datatype error =
    AttributeError string
  | OSError string
  | OverflowError string
  | TypeError string
  | ValueError string
  | RecursionError string

fun str_error :: "error \<Rightarrow> string" where
  "str_error (AttributeError t) = t"
| "str_error (OSError t) = t"
| "str_error (OverflowError t) = t"
| "str_error (TypeError t) = t"
| "str_error (ValueError t) = t"
| "str_error (RecursionError t) = t"

fun type_name :: "pyval \<Rightarrow> string" where
  "type_name PNone = ''NoneType''"
| "type_name (PBool b) = ''bool''"
| "type_name (PInt i) = ''int''"
| "type_name (PFloat r) = ''float''"
| "type_name PInf = ''float''"
| "type_name PNegInf = ''float''"
| "type_name PNaN = ''float''"
| "type_name (PStr t) = ''str''"
| "type_name (PList vs) = ''list''"
| "type_name (PDict kvs) = ''dict''"

text \<open>\<^verbatim>\<open>d.get(key, default)\<close> on a dict.\<close>

definition dict_get :: "(string \<times> pyval) list \<Rightarrow> string \<Rightarrow> pyval \<Rightarrow> pyval" where
  "dict_get d k dflt = (case map_of d k of None \<Rightarrow> dflt | Some v \<Rightarrow> v)"

text \<open>\<^verbatim>\<open>msg.get(key, default)\<close> on any decoded value: only a dict has the method.\<close>

definition no_attribute :: "pyval \<Rightarrow> string \<Rightarrow> error" where
  "no_attribute v name =
     AttributeError ([CHR 0x27] @ type_name v @ [CHR 0x27] @ '' object has no attribute ''
                     @ [CHR 0x27] @ name @ [CHR 0x27])"

fun py_get :: "pyval \<Rightarrow> string \<Rightarrow> pyval \<Rightarrow> error + pyval" where
  "py_get (PDict d) k dflt = Inr (dict_get d k dflt)"
| "py_get v k dflt = Inl (no_attribute v ''get'')"

text \<open>
  A line read from the socket is a Python \<^verbatim>\<open>str\<close>: a list of Unicode code points.
  \<^verbatim>\<open>str.isspace\<close> for one code point, and \<^verbatim>\<open>str.strip()\<close>, which removes leading
  and trailing whitespace.
\<close>

type_synonym line = "nat list"

definition isspace :: "nat \<Rightarrow> bool" where
  "isspace n = ((0x09 \<le> n \<and> n \<le> 0x0D) \<or> (0x1C \<le> n \<and> n \<le> 0x20) \<or> n = 0x85 \<or> n = 0xA0
                \<or> n = 0x1680 \<or> (0x2000 \<le> n \<and> n \<le> 0x200A) \<or> n = 0x2028 \<or> n = 0x2029
                \<or> n = 0x202F \<or> n = 0x205F \<or> n = 0x3000)"

definition strip :: "line \<Rightarrow> line" where
  "strip t = rev (dropWhile isspace (rev (dropWhile isspace t)))"

section \<open>The server\<close>

text \<open>
  A connection is identified by a number. The shared set \<^verbatim>\<open>clients\<close> is a list of
  connections in the order in which the set is iterated; no theorem below depends on
  that order. What the server does to the outside is recorded in a trace of events:
  taking and releasing \<^verbatim>\<open>clients_lock\<close>, each \<^verbatim>\<open>sendall\<close> with the object sent
  and whether it succeeded, each \<^verbatim>\<open>clients.discard\<close> of a dead connection, and
  closing a connection.
\<close>

type_synonym conn = nat

datatype event =
    Acquire
  | Release
  | Send conn pyval bool
  | Discard conn
  | Close conn

record server =
  clients :: "conn list"
  trace :: "event list"

text \<open>
  \<^verbatim>\<open>send_json(sock, obj)\<close>: the parameter \<open>sendall\<close> gives the outcome of
  \<^verbatim>\<open>sock.sendall\<close> for each socket, \<open>None\<close> for a normal return and \<open>Some e\<close> for the
  exception \<open>e\<close> raised; \<^verbatim>\<open>send_json\<close> returns or raises the same.
\<close>

definition send_json ::
  "(conn \<Rightarrow> error option) \<Rightarrow> conn \<Rightarrow> pyval \<Rightarrow> event list \<Rightarrow> error option \<times> event list" where
  "send_json sendall sock obj tr = (sendall sock, tr @ [Send sock obj (sendall sock = None)])"

text \<open>
  The first loop of \<^verbatim>\<open>broadcast\<close>: \<^verbatim>\<open>for c in clients\<close>, skipping \<^verbatim>\<open>exclude\<close>,
  sending, and appending to \<^verbatim>\<open>dead\<close> when the send raises. The loop state is the
  list \<^verbatim>\<open>dead\<close> and the trace.
\<close>

fun fan_out :: "(conn \<Rightarrow> error option) \<Rightarrow> pyval \<Rightarrow> conn option \<Rightarrow> conn list
                  \<Rightarrow> conn list \<times> event list \<Rightarrow> conn list \<times> event list" where
  "fan_out sendall msg_obj exclude [] (dead, tr) = (dead, tr)"
| "fan_out sendall msg_obj exclude (c # cs) (dead, tr) =
     (if Some c = exclude then fan_out sendall msg_obj exclude cs (dead, tr)
      else case send_json sendall c msg_obj tr of
             (None, tr') \<Rightarrow> fan_out sendall msg_obj exclude cs (dead, tr')
           | (Some e, tr') \<Rightarrow> fan_out sendall msg_obj exclude cs (dead @ [c], tr'))"

text \<open>The second loop of \<^verbatim>\<open>broadcast\<close>: \<^verbatim>\<open>for d in dead: clients.discard(d)\<close>.\<close>

fun discard_dead :: "conn list \<Rightarrow> conn list \<times> event list \<Rightarrow> conn list \<times> event list" where
  "discard_dead [] (cl, tr) = (cl, tr)"
| "discard_dead (d # ds) (cl, tr) = discard_dead ds (removeAll d cl, tr @ [Discard d])"

text \<open>\<^verbatim>\<open>broadcast(msg_obj, exclude)\<close>: both loops run inside \<^verbatim>\<open>with clients_lock\<close>.\<close>

definition broadcast :: "(conn \<Rightarrow> error option) \<Rightarrow> pyval \<Rightarrow> conn option \<Rightarrow> server \<Rightarrow> server" where
  "broadcast sendall msg_obj exclude s =
     (case fan_out sendall msg_obj exclude (clients s) ([], trace s @ [Acquire]) of
        (dead, tr1) \<Rightarrow>
          (case discard_dead dead (clients s, tr1) of
             (cl, tr2) \<Rightarrow> s\<lparr>clients := cl, trace := tr2 @ [Release]\<rparr>))"

text \<open>The record broadcast for a chat message received at server time \<open>now\<close>.\<close>

definition chat_out :: "(string \<times> pyval) list \<Rightarrow> real \<Rightarrow> (string \<times> pyval) list" where
  "chat_out msg now =
     [(''type'', PStr ''chat''),
      (''from'', dict_get msg ''from'' (PStr ''?'')),
      (''text'', dict_get msg ''text'' (PStr '''')),
      (''client_ts'', dict_get msg ''client_ts'' PNone),
      (''server_ts'', PFloat now)]"

definition sync_reply :: "real \<Rightarrow> pyval" where
  "sync_reply now = PDict [(''type'', PStr ''sync_reply''), (''server_time'', PFloat now)]"

text \<open>
  The body of the read loop of \<^verbatim>\<open>handle_client\<close> from \<^verbatim>\<open>mtype = msg.get("type")\<close>
  on, for one decoded message; \<open>now\<close> is what \<^verbatim>\<open>time.time()\<close> returns. \<open>None\<close> means
  that the loop goes on, \<open>Some e\<close> that \<open>e\<close> was raised: \<^verbatim>\<open>msg.get\<close> raises when the
  message is not a dict, and \<^verbatim>\<open>send_json(conn, ...)\<close> when the send fails.
\<close>

fun handle_msg ::
  "(conn \<Rightarrow> error option) \<Rightarrow> real \<Rightarrow> conn \<Rightarrow> pyval \<Rightarrow> server \<Rightarrow> error option \<times> server" where
  "handle_msg sendall now conn (PDict msg) s =
     (let mtype = dict_get msg ''type'' PNone in
      if mtype = PStr ''chat'' then
        (None, broadcast sendall (PDict (chat_out msg now)) None s)
      else if mtype = PStr ''sync_request'' then
        (case send_json sendall conn (sync_reply now) (trace s) of
           (r, tr) \<Rightarrow> (r, s\<lparr>trace := tr\<rparr>))
      else (None, s))"
| "handle_msg sendall now conn msg s = (Some (no_attribute msg ''get''), s)"

text \<open>
  One turn of the read loop on the raw line \<open>raw\<close>. \<^verbatim>\<open>json.loads\<close> is the parameter
  \<open>loads\<close>, with three outcomes: the decoded value, \<^verbatim>\<open>JSONDecodeError\<close>, which the
  loop catches and skips, or another exception (\<^verbatim>\<open>ValueError\<close> for an integer literal
  of too many digits, \<^verbatim>\<open>RecursionError\<close> for too deep a nesting), which leaves the loop.
\<close>

datatype loaded = Loaded pyval | JSONDecodeError | LoadsRaised error

definition handle_line ::
  "(line \<Rightarrow> loaded) \<Rightarrow> (conn \<Rightarrow> error option) \<Rightarrow> real \<Rightarrow> conn \<Rightarrow> line \<Rightarrow> server
     \<Rightarrow> error option \<times> server" where
  "handle_line loads sendall now conn raw s =
     (let line = strip raw in
      if line = [] then (None, s)
      else case loads line of
             JSONDecodeError \<Rightarrow> (None, s)
           | LoadsRaised e \<Rightarrow> (Some e, s)
           | Loaded msg \<Rightarrow> handle_msg sendall now conn msg s)"

text \<open>
  The read loop \<^verbatim>\<open>for line in f\<close>. Each line comes with the time at which it is handled
  and with the outcome of a send to each socket at that time. The loop ends with the stream or
  with the first exception, which \<^verbatim>\<open>except Exception: pass\<close> swallows.
\<close>

fun read_loop ::
  "(line \<Rightarrow> loaded) \<Rightarrow> conn \<Rightarrow> (line \<times> real \<times> (conn \<Rightarrow> error option)) list \<Rightarrow> server
     \<Rightarrow> server" where
  "read_loop loads conn [] s = s"
| "read_loop loads conn ((raw, now, sendall) # rest) s =
     (case handle_line loads sendall now conn raw s of
        (None, s') \<Rightarrow> read_loop loads conn rest s'
      | (Some e, s') \<Rightarrow> s')"

definition info :: "string \<Rightarrow> pyval" where
  "info t = PDict [(''type'', PStr ''info''), (''text'', PStr t)]"

text \<open>
  The start of \<^verbatim>\<open>handle_client\<close>: \<^verbatim>\<open>clients.add(conn)\<close> under the lock, then the
  join notice. \<open>addr\<close> is the text that the f-string gives for the address.
\<close>

definition register :: "conn \<Rightarrow> server \<Rightarrow> server" where
  "register conn s =
     s\<lparr>clients := (if conn \<in> set (clients s) then clients s else clients s @ [conn]),
       trace := trace s @ [Acquire, Release]\<rparr>"

definition join :: "(conn \<Rightarrow> error option) \<Rightarrow> conn \<Rightarrow> string \<Rightarrow> server \<Rightarrow> server" where
  "join sendall conn addr s = broadcast sendall (info (addr @ '' joined'')) None (register conn s)"

text \<open>
  The \<^verbatim>\<open>finally\<close> block of \<^verbatim>\<open>handle_client\<close>: remove the connection under the lock,
  close it, broadcast the leave notice.
\<close>

definition leave :: "(conn \<Rightarrow> error option) \<Rightarrow> conn \<Rightarrow> string \<Rightarrow> server \<Rightarrow> server" where
  "leave sendall conn addr s =
     broadcast sendall (info (addr @ '' left'')) None
       (s\<lparr>clients := (if conn \<in> set (clients s) then removeAll conn (clients s) else clients s),
          trace := trace s @ [Acquire, Release, Close conn]\<rparr>)"

definition handle_client ::
  "(line \<Rightarrow> loaded) \<Rightarrow> conn \<Rightarrow> string \<Rightarrow> (conn \<Rightarrow> error option)
     \<Rightarrow> (line \<times> real \<times> (conn \<Rightarrow> error option)) list \<Rightarrow> (conn \<Rightarrow> error option) \<Rightarrow> server \<Rightarrow> server" where
  "handle_client loads conn addr send_join lines send_leave s =
     leave send_leave conn addr (read_loop loads conn lines (join send_join conn addr s))"

text \<open>
  Reading a trace: the connections to which a send was tried, and whether every send
  of the trace happens while the lock is free (\<open>held\<close> is the state of the lock before
  the trace).
\<close>

fun sends :: "event list \<Rightarrow> (conn \<times> pyval \<times> bool) list" where
  "sends [] = []"
| "sends (Send c m ok # es) = (c, m, ok) # sends es"
| "sends (e # es) = sends es"

fun io_outside_lock :: "bool \<Rightarrow> event list \<Rightarrow> bool" where
  "io_outside_lock held [] = True"
| "io_outside_lock held (Acquire # es) = io_outside_lock True es"
| "io_outside_lock held (Release # es) = io_outside_lock False es"
| "io_outside_lock held (Send c m ok # es) = (\<not> held \<and> io_outside_lock held es)"
| "io_outside_lock held (e # es) = io_outside_lock held es"

fun io_inside_lock :: "bool \<Rightarrow> event list \<Rightarrow> bool" where
  "io_inside_lock held [] = True"
| "io_inside_lock held (Acquire # es) = io_inside_lock True es"
| "io_inside_lock held (Release # es) = io_inside_lock False es"
| "io_inside_lock held (Send c m ok # es) = (held \<and> io_inside_lock held es)"
| "io_inside_lock held (e # es) = io_inside_lock held es"

section \<open>Binary64 arithmetic\<close>

text \<open>
  A Python \<^verbatim>\<open>float\<close> is an IEEE 754 binary64 number: a finite one is the real number it
  stands for, \<open>m * 2 ^ e\<close> with \<open>\<bar>m\<bar> < 2 ^ 53\<close> and \<open>- 1074 \<le> e \<le> 971\<close>. Every operation
  gives the exact result rounded to the nearest such number, a tie going to the one with the
  even \<open>m\<close>, and an infinity when the rounded result is beyond the range.
\<close>

datatype float = Finite real | PosInf | NegInf | NaN

definition round_half_even :: "real \<Rightarrow> int" where
  "round_half_even x =
     (let n = \<lfloor>x\<rfloor>; r = x - of_int n
      in if r < 1 / 2 then n else if 1 / 2 < r then n + 1 else if even n then n else n + 1)"

text \<open>For \<open>0 < x\<close>, the integer \<open>k\<close> with \<open>2 ^ k \<le> x < 2 ^ (k + 1)\<close>.\<close>

definition floor_log2 :: "real \<Rightarrow> int" where
  "floor_log2 x = (if 1 \<le> x then bitlen \<lfloor>x\<rfloor> - 1 else - bitlen (\<lceil>1 / x\<rceil> - 1))"

text \<open>
  Rounding a real number to binary64: the spacing of the floats around \<open>x\<close> is \<open>2 ^ e\<close>,
  where \<open>e\<close> is 52 below the exponent of \<open>x\<close> and not below that of the subnormal numbers.
\<close>

definition rnd :: "real \<Rightarrow> float" where
  "rnd x =
     (if x = 0 then Finite 0
      else (let e = max (floor_log2 \<bar>x\<bar> - 52) (- 1074);
                v = of_int (round_half_even (x / 2 powi e)) * 2 powi e
            in if 2 ^ 1024 \<le> \<bar>v\<bar> then (if 0 < x then PosInf else NegInf) else Finite v))"

fun fneg :: "float \<Rightarrow> float" where
  "fneg (Finite x) = Finite (- x)"
| "fneg PosInf = NegInf"
| "fneg NegInf = PosInf"
| "fneg NaN = NaN"

fun fadd :: "float \<Rightarrow> float \<Rightarrow> float" where
  "fadd (Finite x) (Finite y) = rnd (x + y)"
| "fadd NaN b = NaN"
| "fadd a NaN = NaN"
| "fadd PosInf NegInf = NaN"
| "fadd NegInf PosInf = NaN"
| "fadd PosInf b = PosInf"
| "fadd NegInf b = NegInf"
| "fadd a PosInf = PosInf"
| "fadd a NegInf = NegInf"

definition fsub :: "float \<Rightarrow> float \<Rightarrow> float" where
  "fsub a b = fadd a (fneg b)"

fun fsign :: "float \<Rightarrow> int" where
  "fsign (Finite x) = (if 0 < x then 1 else if x < 0 then - 1 else 0)"
| "fsign PosInf = 1"
| "fsign NegInf = - 1"
| "fsign NaN = 0"

fun fmul :: "float \<Rightarrow> float \<Rightarrow> float" where
  "fmul (Finite x) (Finite y) = rnd (x * y)"
| "fmul NaN b = NaN"
| "fmul a NaN = NaN"
| "fmul a b = (if fsign a * fsign b = 0 then NaN
               else if 0 < fsign a * fsign b then PosInf else NegInf)"

text \<open>\<^verbatim>\<open>x / 2.0\<close>: the only division of the modelled code, by the literal \<^verbatim>\<open>2.0\<close>.\<close>

fun fhalf :: "float \<Rightarrow> float" where
  "fhalf (Finite x) = rnd (x / 2)"
| "fhalf a = a"

text \<open>
  \<^verbatim>\<open>isinstance(v, (int, float))\<close>: a \<^verbatim>\<open>bool\<close> is an \<^verbatim>\<open>int\<close> in Python, so a JSON
  \<^verbatim>\<open>true\<close> or \<^verbatim>\<open>false\<close> passes the test.
\<close>

fun is_number :: "pyval \<Rightarrow> bool" where
  "is_number (PBool b) = True"
| "is_number (PInt i) = True"
| "is_number (PFloat r) = True"
| "is_number PInf = True"
| "is_number PNegInf = True"
| "is_number PNaN = True"
| "is_number v = False"

text \<open>
  The left operand \<open>v\<close> of \<^verbatim>\<open>v + x\<close> for a float \<^verbatim>\<open>x\<close>, as the float that the addition
  uses: a \<^verbatim>\<open>bool\<close> counts as 0 or 1, an \<^verbatim>\<open>int\<close> is rounded to a float and raises
  \<^verbatim>\<open>OverflowError\<close> when that is beyond the range, and a value of another type raises
  \<^verbatim>\<open>TypeError\<close>.
\<close>

fun to_float :: "pyval \<Rightarrow> error + float" where
  "to_float (PFloat r) = Inr (Finite r)"
| "to_float PInf = Inr PosInf"
| "to_float PNegInf = Inr NegInf"
| "to_float PNaN = Inr NaN"
| "to_float (PBool b) = Inr (Finite (of_bool b))"
| "to_float (PInt i) =
     (case rnd (of_int i) of
        Finite x \<Rightarrow> Inr (Finite x)
      | _ \<Rightarrow> Inl (OverflowError ''int too large to convert to float''))"
| "to_float (PStr t) =
     Inl (TypeError (''can only concatenate str (not '' @ [CHR 0x22] @ ''float'' @ [CHR 0x22]
                     @ '') to str''))"
| "to_float (PList vs) =
     Inl (TypeError (''can only concatenate list (not '' @ [CHR 0x22] @ ''float'' @ [CHR 0x22]
                     @ '') to list''))"
| "to_float v =
     Inl (TypeError (''unsupported operand type(s) for +: '' @ [CHR 0x27] @ type_name v
                     @ [CHR 0x27] @ '' and '' @ [CHR 0x27] @ ''float'' @ [CHR 0x27]))"

section \<open>The client\<close>

text \<open>
  The class \<^verbatim>\<open>Clock\<close>. The readings of \<^verbatim>\<open>time.time()\<close>, finite floats, are
  parameters of the functions that read the time.
\<close>

definition DRIFT_PER_SEC :: real where
  "DRIFT_PER_SEC = 0"

record clock =
  start_real :: real
  start_local :: real
  offset :: float

definition clock_init :: "real \<Rightarrow> clock" where
  "clock_init t = \<lparr>start_real = t, start_local = t, offset = Finite 0\<rparr>"

definition now_local :: "clock \<Rightarrow> real \<Rightarrow> float" where
  "now_local clk t =
     (let real_elapsed = fsub (Finite t) (Finite (start_real clk));
          drifted = fadd (Finite (start_local clk))
                         (fmul real_elapsed (fadd (Finite 1) (Finite DRIFT_PER_SEC)))
      in drifted)"

definition now_synced :: "clock \<Rightarrow> real \<Rightarrow> float" where
  "now_synced clk t = fadd (now_local clk t) (offset clk)"

text \<open>
  \<^verbatim>\<open>apply_cristian(t_send, server_time, t_recv)\<close>: \<open>t_send\<close> and \<open>t_recv\<close> are results of
  \<^verbatim>\<open>now_local\<close>, \<open>server_time\<close> is whatever the reply held. The result is the exception
  raised, with the clock left as it was, or the clock with the new offset.
\<close>

definition apply_cristian :: "float \<Rightarrow> pyval \<Rightarrow> float \<Rightarrow> clock \<Rightarrow> error + clock" where
  "apply_cristian t_send server_time t_recv clk =
     (let rtt = fsub t_recv t_send in
      case to_float server_time of
        Inl e \<Rightarrow> Inl e
      | Inr st \<Rightarrow>
          (let est_offset = fsub (fadd st (fhalf rtt)) t_recv
           in Inr (clk\<lparr>offset := est_offset\<rparr>)))"

text \<open>
  The part of \<^verbatim>\<open>ClientApp\<close> that a synchronisation round touches: the clock, the flag
  \<^verbatim>\<open>running\<close>, the queue \<^verbatim>\<open>ui_queue\<close> (head first), the lines appended to the chat
  window, the objects sent to the server, and the callbacks registered with
  \<^verbatim>\<open>master.after\<close>.
\<close>

datatype task = ProcessUiQueue | UpdateClocks | SyncWithServer

record client =
  clock :: clock
  running :: bool
  ui_queue :: "pyval list"
  chat :: "string list"
  sent :: "pyval list"
  timers :: "(nat \<times> task) list"

definition append_chat :: "string \<Rightarrow> client \<Rightarrow> client" where
  "append_chat line c = c\<lparr>chat := chat c @ [line]\<rparr>"

text \<open>
  The waiting loop of \<^verbatim>\<open>sync_with_server\<close>. The receiver thread puts messages into
  the queue while the loop runs, and the clock decides how often the loop turns: both are
  given by a list with one entry for each turn taken before the deadline, holding the
  messages that arrive before the \<^verbatim>\<open>get\<close> of that turn and those that arrive between
  its \<^verbatim>\<open>get\<close> and its \<^verbatim>\<open>put\<close>. A \<^verbatim>\<open>get\<close> on an empty queue is \<^verbatim>\<open>queue.Empty\<close>.
  The result is the reply found (or the exception raised), the queue, and the turns that
  were not taken.
\<close>

type_synonym tick = "pyval list \<times> pyval list"

fun wait_reply :: "tick list \<Rightarrow> pyval list \<Rightarrow> (error + pyval option) \<times> pyval list \<times> tick list" where
  "wait_reply [] q = (Inr None, q, [])"
| "wait_reply ((before, between) # ts) q =
     (case q @ before of
        [] \<Rightarrow> wait_reply ts between
      | msg # q' \<Rightarrow>
          (case py_get msg ''type'' PNone of
             Inl e \<Rightarrow> (Inl e, q', ([], between) # ts)
           | Inr mtype \<Rightarrow>
               if mtype = PStr ''sync_reply'' then (Inr (Some msg), q', ([], between) # ts)
               else wait_reply ts (q' @ between @ [msg])))"

text \<open>
  \<^verbatim>\<open>sync_with_server\<close>. \<open>t0\<close> and \<open>t1\<close> are the readings of \<^verbatim>\<open>time.time()\<close> behind
  \<^verbatim>\<open>t_send\<close> and \<^verbatim>\<open>t_recv\<close>, \<open>send_err\<close> is the exception of \<^verbatim>\<open>self.send_json\<close>, if
  it raises, and \<open>ticks\<close> drives the waiting loop. Every exception of the round ends in
  \<^verbatim>\<open>except Exception as e\<close>, which reports it in the chat window.
\<close>

definition sync_round :: "real \<Rightarrow> error option \<Rightarrow> tick list \<Rightarrow> real \<Rightarrow> client \<Rightarrow> client" where
  "sync_round t0 send_err ticks t1 c =
     (let t_send = now_local (clock c) t0 in
      case send_err of
        Some e \<Rightarrow> append_chat (''[sync error] '' @ str_error e) c
      | None \<Rightarrow>
          (let c1 = c\<lparr>sent := sent c @ [PDict [(''type'', PStr ''sync_request'')]]\<rparr> in
           case wait_reply ticks (ui_queue c1) of
             (Inl e, q, rest) \<Rightarrow> append_chat (''[sync error] '' @ str_error e) (c1\<lparr>ui_queue := q\<rparr>)
           | (Inr None, q, rest) \<Rightarrow> append_chat ''[sync] no reply'' (c1\<lparr>ui_queue := q\<rparr>)
           | (Inr (Some reply), q, rest) \<Rightarrow>
               (let c2 = c1\<lparr>ui_queue := q\<rparr>;
                    t_recv = now_local (clock c2) t1
                in case py_get reply ''server_time'' PNone of
                     Inl e \<Rightarrow> append_chat (''[sync error] '' @ str_error e) c2
                   | Inr server_time \<Rightarrow>
                       if is_number server_time then
                         (case apply_cristian t_send server_time t_recv (clock c2) of
                            Inl e \<Rightarrow> append_chat (''[sync error] '' @ str_error e) c2
                          | Inr clk \<Rightarrow> append_chat ''[sync] clock adjusted'' (c2\<lparr>clock := clk\<rparr>))
                       else append_chat ''[sync] invalid server time'' c2)))"

definition sync_with_server :: "real \<Rightarrow> error option \<Rightarrow> tick list \<Rightarrow> real \<Rightarrow> client \<Rightarrow> client" where
  "sync_with_server t0 send_err ticks t1 c =
     (if \<not> running c then c
      else (let c' = sync_round t0 send_err ticks t1 c
            in c'\<lparr>timers := timers c' @ [(5000, SyncWithServer)]\<rparr>))"

text \<open>The messages that the receiver thread delivers during a list of turns.\<close>

definition arrivals :: "tick list \<Rightarrow> pyval list" where
  "arrivals ts = concat (map (\<lambda>(before, between). before @ between) ts)"

section \<open>Reading the results\<close>

text \<open>The events that a step from \<open>s\<close> to \<open>s'\<close> adds to the trace.\<close>

definition new_events :: "server \<Rightarrow> server \<Rightarrow> event list" where
  "new_events s s' = drop (length (trace s)) (trace s')"

text \<open>The test of the waiting loop: \<^verbatim>\<open>msg.get("type") == "sync_reply"\<close>.\<close>

definition is_sync_reply :: "pyval \<Rightarrow> bool" where
  "is_sync_reply msg = (py_get msg ''type'' PNone = Inr (PStr ''sync_reply''))"

section \<open>The broadcast loop in closed form\<close>

text \<open>
  The two loops of \<^verbatim>\<open>broadcast\<close> as filters and maps over the registry: who is sent
  to, who is collected in \<^verbatim>\<open>dead\<close>, who is left.
\<close>

lemma fan_out_eq:
  "fan_out sendall m ex cs (dead, tr) =
     (dead @ filter (\<lambda>c. Some c \<noteq> ex \<and> sendall c \<noteq> None) cs,
      tr @ map (\<lambda>c. Send c m (sendall c = None)) (filter (\<lambda>c. Some c \<noteq> ex) cs))"
  by (induction cs arbitrary: dead tr) (auto simp add: send_json_def split: option.splits)

lemma discard_dead_eq:
  "discard_dead ds (cl, tr) = (filter (\<lambda>c. c \<notin> set ds) cl, tr @ map Discard ds)"
proof (induction ds arbitrary: cl tr)
  case Nil
  show ?case by simp
next
  case (Cons d ds)
  have "filter (\<lambda>c. c \<notin> set ds) (removeAll d cl) = filter (\<lambda>c. c \<notin> set (d # ds)) cl"
    by (induction cl) auto
  with Cons show ?case by simp
qed

lemma broadcast_eq:
  "broadcast sendall m ex s =
     s\<lparr>clients := filter (\<lambda>c. Some c = ex \<or> sendall c = None) (clients s),
       trace := trace s @ [Acquire]
                @ map (\<lambda>c. Send c m (sendall c = None)) (filter (\<lambda>c. Some c \<noteq> ex) (clients s))
                @ map Discard (filter (\<lambda>c. Some c \<noteq> ex \<and> sendall c \<noteq> None) (clients s))
                @ [Release]\<rparr>"
proof -
  have "filter (\<lambda>c. c \<notin> set (filter (\<lambda>c. Some c \<noteq> ex \<and> sendall c \<noteq> None) (clients s))) (clients s)
        = filter (\<lambda>c. Some c = ex \<or> sendall c = None) (clients s)"
    by (rule filter_cong) auto
  then show ?thesis
    by (simp add: broadcast_def fan_out_eq discard_dead_eq)
qed

lemma sends_append: "sends (xs @ ys) = sends xs @ sends ys"
  by (induction xs rule: sends.induct) simp_all

lemma sends_map_Send: "sends (map (\<lambda>c. Send c m (f c)) cs) = map (\<lambda>c. (c, m, f c)) cs"
  by (induction cs) simp_all

lemma sends_map_Discard: "sends (map Discard cs) = []"
  by (induction cs) simp_all

section \<open>The session handler\<close>

text \<open>
  Claim C1 reads: the record broadcast for a chat message keeps \<^verbatim>\<open>from\<close>, \<^verbatim>\<open>text\<close>
  and \<^verbatim>\<open>client_ts\<close> as they came, absent when they were absent. The handler reads the three
  fields with \<^verbatim>\<open>msg.get\<close> and a default, and always writes all of them: for a chat message
  that has none of the three, the record sent has \<^verbatim>\<open>from\<close> = \<^verbatim>\<open>"?"\<close>, \<^verbatim>\<open>text\<close> =
  \<^verbatim>\<open>""\<close> and \<^verbatim>\<open>client_ts\<close> = \<^verbatim>\<open>None\<close>.
\<close>

theorem chat_defaults_counterexample:
  "handle_msg (\<lambda>c. None) 7 1 (PDict [(''type'', PStr ''chat'')]) \<lparr>clients = [1], trace = []\<rparr>
     = (None, \<lparr>clients = [1],
               trace = [Acquire,
                        Send 1 (PDict [(''type'', PStr ''chat''), (''from'', PStr ''?''),
                                       (''text'', PStr ''''), (''client_ts'', PNone),
                                       (''server_ts'', PFloat 7)]) True,
                        Release]\<rparr>)
   \<and> map_of [(''type'', PStr ''chat'')] ''from'' = None
   \<and> map_of (chat_out [(''type'', PStr ''chat'')] 7) ''from'' = Some (PStr ''?'')
   \<and> map_of [(''type'', PStr ''chat'')] ''text'' = None
   \<and> map_of (chat_out [(''type'', PStr ''chat'')] 7) ''text'' = Some (PStr '''')
   \<and> map_of [(''type'', PStr ''chat'')] ''client_ts'' = None
   \<and> map_of (chat_out [(''type'', PStr ''chat'')] 7) ''client_ts'' = Some PNone"
  by (simp add: broadcast_eq chat_out_def dict_get_def)

text \<open>
  Claim C1 as the code has it: for every decoded dict whose \<^verbatim>\<open>type\<close> is \<^verbatim>\<open>"chat"\<close>, the
  handler goes on with the loop after broadcasting, to all connections with no exclusion
  (one send to each registered connection), a record with exactly the keys \<^verbatim>\<open>type\<close>, \<^verbatim>\<open>from\<close>, \<^verbatim>\<open>text\<close>, \<^verbatim>\<open>client_ts\<close>,
  \<^verbatim>\<open>server_ts\<close>, in which \<^verbatim>\<open>server_ts\<close> is the server's time of receipt and each of
  \<^verbatim>\<open>from\<close>, \<^verbatim>\<open>text\<close>, \<^verbatim>\<open>client_ts\<close> is the value of the inbound record when the key is
  present there, and \<^verbatim>\<open>"?"\<close>, \<^verbatim>\<open>""\<close>, \<^verbatim>\<open>None\<close> respectively when it is absent.
\<close>

theorem chat_stamped_and_copied:
  "map_of d ''type'' = Some (PStr ''chat'') \<Longrightarrow>
     handle_msg sendall now conn (PDict d) s = (None, broadcast sendall (PDict (chat_out d now)) None s)
   \<and> sends (new_events s (snd (handle_msg sendall now conn (PDict d) s)))
       = map (\<lambda>c. (c, PDict (chat_out d now), sendall c = None)) (clients s)
   \<and> map fst (chat_out d now) = [''type'', ''from'', ''text'', ''client_ts'', ''server_ts'']
   \<and> map_of (chat_out d now) ''type'' = Some (PStr ''chat'')
   \<and> map_of (chat_out d now) ''server_ts'' = Some (PFloat now)
   \<and> map_of (chat_out d now) ''from'' = Some (case map_of d ''from'' of None \<Rightarrow> PStr ''?'' | Some v \<Rightarrow> v)
   \<and> map_of (chat_out d now) ''text'' = Some (case map_of d ''text'' of None \<Rightarrow> PStr '''' | Some v \<Rightarrow> v)
   \<and> map_of (chat_out d now) ''client_ts'' = Some (case map_of d ''client_ts'' of None \<Rightarrow> PNone | Some v \<Rightarrow> v)"
  by (simp add: dict_get_def chat_out_def broadcast_eq new_events_def sends_append
        sends_map_Send sends_map_Discard)

theorem chat_stamped_and_copied_witness:
  "map_of [(''type'', PStr ''chat''), (''from'', PStr ''ann''), (''text'', PStr ''hi'')] ''type''
     = Some (PStr ''chat'')
   \<and> handle_msg (\<lambda>c. None) 7 1
        (PDict [(''type'', PStr ''chat''), (''from'', PStr ''ann''), (''text'', PStr ''hi'')])
        \<lparr>clients = [1, 2], trace = []\<rparr>
      = (None, \<lparr>clients = [1, 2],
                trace = [Acquire,
                         Send 1 (PDict [(''type'', PStr ''chat''), (''from'', PStr ''ann''),
                                        (''text'', PStr ''hi''), (''client_ts'', PNone),
                                        (''server_ts'', PFloat 7)]) True,
                         Send 2 (PDict [(''type'', PStr ''chat''), (''from'', PStr ''ann''),
                                        (''text'', PStr ''hi''), (''client_ts'', PNone),
                                        (''server_ts'', PFloat 7)]) True,
                         Release]\<rparr>)"
  using chat_stamped_and_copied [of "[(''type'', PStr ''chat''), (''from'', PStr ''ann''), (''text'', PStr ''hi'')]"
      "\<lambda>c. None" 7 1 "\<lparr>clients = [1, 2], trace = []\<rparr>"]
  by (simp add: broadcast_eq chat_out_def dict_get_def)

text \<open>
  Claim C3 reads: the join notice goes to the other connections only, not to the
  connection that joined. The handler adds the connection to the registry first and then
  calls \<^verbatim>\<open>broadcast\<close> with \<^verbatim>\<open>exclude=None\<close>: a connection that joins an empty registry
  is sent its own join notice.
\<close>

theorem join_notice_counterexample:
  "(1, info ''a joined'', True)
     \<in> set (sends (new_events \<lparr>clients = [], trace = []\<rparr>
                      (join (\<lambda>c. None) 1 ''a'' \<lparr>clients = [], trace = []\<rparr>)))"
  by (simp add: join_def register_def broadcast_eq new_events_def)

text \<open>
  Claim C3 as the code has it: when a connection is accepted and added to the registry,
  the join notice of kind \<^verbatim>\<open>info\<close> is sent to every registered connection, the newly
  joined one included.
\<close>

theorem join_notice_to_all:
  "sends (new_events s (join sendall conn addr s))
     = map (\<lambda>c. (c, info (addr @ '' joined''), sendall c = None))
           (if conn \<in> set (clients s) then clients s else clients s @ [conn])
   \<and> (conn, info (addr @ '' joined''), sendall conn = None) \<in> set (sends (new_events s (join sendall conn addr s)))"
  by (auto simp add: join_def register_def broadcast_eq new_events_def sends_append sends_map_Send
        sends_map_Discard)

theorem join_notice_to_all_witness:
  "sends (new_events \<lparr>clients = [1], trace = []\<rparr> (join (\<lambda>c. None) 2 ''b'' \<lparr>clients = [1], trace = []\<rparr>))
     = [(1, info ''b joined'', True), (2, info ''b joined'', True)]"
  using join_notice_to_all [of "\<lparr>clients = [1], trace = []\<rparr>" "\<lambda>c. None" 2 "''b''"]
  by simp

text \<open>
  Claim C8: for every inbound \<^verbatim>\<open>sync_request\<close> the handler makes one send, of a
  \<^verbatim>\<open>sync_reply\<close> whose \<^verbatim>\<open>server_time\<close> is the current server time, to the requesting
  connection; nothing is sent to any other connection and the registry is unchanged. The
  loop goes on when the send succeeds; when it fails the exception leaves the loop.
\<close>

theorem sync_request_reply:
  "map_of d ''type'' = Some (PStr ''sync_request'') \<Longrightarrow>
     handle_msg sendall now conn (PDict d) s
       = (sendall conn,
          s\<lparr>trace := trace s @ [Send conn (PDict [(''type'', PStr ''sync_reply''),
                                               (''server_time'', PFloat now)]) (sendall conn = None)]\<rparr>)
   \<and> clients (snd (handle_msg sendall now conn (PDict d) s)) = clients s
   \<and> sends (new_events s (snd (handle_msg sendall now conn (PDict d) s)))
       = [(conn, PDict [(''type'', PStr ''sync_reply''), (''server_time'', PFloat now)], sendall conn = None)]"
  by (simp add: dict_get_def send_json_def sync_reply_def new_events_def)

theorem sync_request_reply_witness:
  "map_of [(''type'', PStr ''sync_request'')] ''type'' = Some (PStr ''sync_request'')
   \<and> handle_msg (\<lambda>c. None) 9 2 (PDict [(''type'', PStr ''sync_request'')]) \<lparr>clients = [1, 2, 3], trace = []\<rparr>
       = (None, \<lparr>clients = [1, 2, 3],
                 trace = [Send 2 (PDict [(''type'', PStr ''sync_reply''), (''server_time'', PFloat 9)]) True]\<rparr>)"
  using sync_request_reply [of "[(''type'', PStr ''sync_request'')]" "\<lambda>c. None" 9 2
      "\<lparr>clients = [1, 2, 3], trace = []\<rparr>"]
  by simp

lemma strip_blank: "\<forall>ch \<in> set raw. isspace ch \<Longrightarrow> strip raw = []"
proof -
  assume "\<forall>ch \<in> set raw. isspace ch"
  then have d: "dropWhile isspace raw = []" by simp
  show ?thesis unfolding strip_def d by simp
qed

text \<open>
  Claim C10: an inbound line that is empty or holds only whitespace is skipped: the state
  of the server (registry and trace: no reply, no broadcast) is unchanged, no exception is
  raised, and the read loop goes on with the following lines.
\<close>

theorem blank_line_skipped:
  "\<forall>ch \<in> set raw. isspace ch \<Longrightarrow>
     handle_line loads sendall now conn raw s = (None, s)
   \<and> read_loop loads conn ((raw, now, sendall) # rest) s = read_loop loads conn rest s"
  by (simp add: handle_line_def strip_blank)

theorem blank_line_skipped_witness:
  "isspace 0x20 \<and> isspace 0x09 \<and> isspace 0x0A
   \<and> handle_line (\<lambda>t. Loaded PNone) (\<lambda>c. None) 3 1 [0x20, 0x09, 0x0A]
        \<lparr>clients = [1], trace = []\<rparr> = (None, \<lparr>clients = [1], trace = []\<rparr>)
   \<and> read_loop (\<lambda>t. Loaded PNone) 1 [([0x20, 0x09, 0x0A], 3, \<lambda>c. None)]
        \<lparr>clients = [1], trace = []\<rparr> = \<lparr>clients = [1], trace = []\<rparr>"
proof -
  have h: "\<forall>ch \<in> set [0x20, 0x09, 0x0A]. isspace ch"
    by (simp add: isspace_def)
  show ?thesis
    using h blank_line_skipped [OF h, of "\<lambda>t. Loaded PNone" "\<lambda>c. None" 3 1 "\<lparr>clients = [1], trace = []\<rparr>" "[]"]
    by simp
qed

section \<open>Broadcast\<close>

text \<open>
  Claim C6: \<^verbatim>\<open>broadcast\<close> tries a send to every connection of the registry except the
  excluded one, whether or not earlier sends failed; the connections whose send failed are
  discarded after the last send, before the lock is released, and are the only ones removed.
  When exactly one connection \<open>c0\<close> fails, every other connection that is not excluded is
  delivered to and \<open>c0\<close> is not in the registry when \<^verbatim>\<open>broadcast\<close> returns.
\<close>

theorem broadcast_partial_failure:
  "new_events s (broadcast sendall m ex s) =
       [Acquire]
       @ map (\<lambda>c. Send c m (sendall c = None)) (filter (\<lambda>c. Some c \<noteq> ex) (clients s))
       @ map Discard (filter (\<lambda>c. Some c \<noteq> ex \<and> sendall c \<noteq> None) (clients s))
       @ [Release]
   \<and> clients (broadcast sendall m ex s) = filter (\<lambda>c. Some c = ex \<or> sendall c = None) (clients s)
   \<and> (c0 \<in> set (clients s) \<and> Some c0 \<noteq> ex \<and> sendall c0 \<noteq> None \<and> (\<forall>c \<in> set (clients s). c \<noteq> c0 \<longrightarrow> sendall c = None)
        \<longrightarrow> c0 \<notin> set (clients (broadcast sendall m ex s))
          \<and> (\<forall>c \<in> set (clients s). c \<noteq> c0 \<and> Some c \<noteq> ex
                \<longrightarrow> (c, m, True) \<in> set (sends (new_events s (broadcast sendall m ex s)))))"
proof (intro conjI impI)
  show tr: "new_events s (broadcast sendall m ex s) =
       [Acquire]
       @ map (\<lambda>c. Send c m (sendall c = None)) (filter (\<lambda>c. Some c \<noteq> ex) (clients s))
       @ map Discard (filter (\<lambda>c. Some c \<noteq> ex \<and> sendall c \<noteq> None) (clients s))
       @ [Release]"
    by (simp add: new_events_def broadcast_eq)
  show cl: "clients (broadcast sendall m ex s) = filter (\<lambda>c. Some c = ex \<or> sendall c = None) (clients s)"
    by (simp add: broadcast_eq)
  assume h: "c0 \<in> set (clients s) \<and> Some c0 \<noteq> ex \<and> sendall c0 \<noteq> None \<and> (\<forall>c \<in> set (clients s). c \<noteq> c0 \<longrightarrow> sendall c = None)"
  from h show "c0 \<notin> set (clients (broadcast sendall m ex s))"
    by (simp add: cl)
  have sn: "sends (new_events s (broadcast sendall m ex s))
            = map (\<lambda>c. (c, m, sendall c = None)) (filter (\<lambda>c. Some c \<noteq> ex) (clients s))"
    by (simp add: tr sends_append sends_map_Send sends_map_Discard)
  show "\<forall>c \<in> set (clients s). c \<noteq> c0 \<and> Some c \<noteq> ex
          \<longrightarrow> (c, m, True) \<in> set (sends (new_events s (broadcast sendall m ex s)))"
  proof (intro ballI impI)
    fix c assume c: "c \<in> set (clients s)" and n: "c \<noteq> c0 \<and> Some c \<noteq> ex"
    with h have "sendall c = None" by blast
    with c n show "(c, m, True) \<in> set (sends (new_events s (broadcast sendall m ex s)))"
      unfolding sn by force
  qed
qed

theorem broadcast_partial_failure_witness:
  "(2::nat) \<in> set [1, 2, 3]
   \<and> clients (broadcast (\<lambda>c. if c = 2 then Some (OSError ''Broken pipe'') else None) (info ''hi'') None \<lparr>clients = [1, 2, 3], trace = []\<rparr>) = [1, 3]
   \<and> new_events \<lparr>clients = [1, 2, 3], trace = []\<rparr>
        (broadcast (\<lambda>c. if c = 2 then Some (OSError ''Broken pipe'') else None) (info ''hi'') None \<lparr>clients = [1, 2, 3], trace = []\<rparr>)
       = [Acquire, Send 1 (info ''hi'') True, Send 2 (info ''hi'') False, Send 3 (info ''hi'') True,
          Discard 2, Release]
   \<and> (3, info ''hi'', True) \<in> set (sends (new_events \<lparr>clients = [1, 2, 3], trace = []\<rparr>
        (broadcast (\<lambda>c. if c = 2 then Some (OSError ''Broken pipe'') else None) (info ''hi'') None \<lparr>clients = [1, 2, 3], trace = []\<rparr>)))"
  using broadcast_partial_failure [of "\<lparr>clients = [1, 2, 3], trace = []\<rparr>" "\<lambda>c. if c = 2 then Some (OSError ''Broken pipe'') else None" "info ''hi''" None 2]
  by simp

text \<open>
  Claim C9 reads: no send happens while the registry lock is held, and the fan-out iterates
  a copy of the registry. \<^verbatim>\<open>broadcast\<close> sends inside \<^verbatim>\<open>with clients_lock\<close>, iterating
  \<^verbatim>\<open>clients\<close> itself: with one connection registered, its trace has a send between taking
  and releasing the lock.
\<close>

theorem lock_held_counterexample:
  "\<not> io_outside_lock False
       (trace (broadcast (\<lambda>c. None) (info ''hi'') None \<lparr>clients = [1], trace = []\<rparr>))"
  by (simp add: broadcast_eq)

lemma io_inside_lock_sends:
  "io_inside_lock True (map (\<lambda>c. Send c m (f c)) cs @ es) = io_inside_lock True es"
  by (induction cs) simp_all

lemma io_inside_lock_discards:
  "io_inside_lock h (map Discard cs @ es) = io_inside_lock h es"
  by (induction cs) simp_all

lemma io_outside_lock_sends:
  "io_outside_lock True (map (\<lambda>c. Send c m (f c)) cs @ es) = (cs = [] \<and> io_outside_lock True es)"
  by (induction cs) auto

text \<open>
  Claim C9 as the code has it: every send of the fan-out of \<^verbatim>\<open>broadcast\<close> happens
  inside the critical section of the registry lock, so the lock is held across I/O whenever
  \<^verbatim>\<open>broadcast\<close> sends at all; the send of a \<^verbatim>\<open>sync_reply\<close> by the session handler
  happens outside the lock.
\<close>

theorem fan_out_under_lock:
  "io_inside_lock False (new_events s (broadcast sendall m ex s))
   \<and> (sends (new_events s (broadcast sendall m ex s)) \<noteq> []
        \<longrightarrow> \<not> io_outside_lock False (new_events s (broadcast sendall m ex s)))
   \<and> (map_of d ''type'' = Some (PStr ''sync_request'')
        \<longrightarrow> io_outside_lock False (new_events s (snd (handle_msg sendall now conn (PDict d) s))))"
proof (intro conjI impI)
  show "io_inside_lock False (new_events s (broadcast sendall m ex s))"
    by (simp add: new_events_def broadcast_eq io_inside_lock_sends io_inside_lock_discards)
  assume "sends (new_events s (broadcast sendall m ex s)) \<noteq> []"
  then have "filter (\<lambda>c. Some c \<noteq> ex) (clients s) \<noteq> []"
    by (simp add: new_events_def broadcast_eq sends_append sends_map_Send sends_map_Discard)
  then show "\<not> io_outside_lock False (new_events s (broadcast sendall m ex s))"
    by (simp add: new_events_def broadcast_eq io_outside_lock_sends)
next
  assume "map_of d ''type'' = Some (PStr ''sync_request'')"
  then show "io_outside_lock False (new_events s (snd (handle_msg sendall now conn (PDict d) s)))"
    by (simp add: dict_get_def send_json_def new_events_def)
qed

theorem fan_out_under_lock_witness:
  "sends (new_events \<lparr>clients = [1, 2], trace = []\<rparr>
            (broadcast (\<lambda>c. None) (info ''hi'') (Some 2) \<lparr>clients = [1, 2], trace = []\<rparr>)) \<noteq> []
   \<and> map_of [(''type'', PStr ''sync_request'')] ''type'' = Some (PStr ''sync_request'')
   \<and> io_inside_lock False (new_events \<lparr>clients = [1, 2], trace = []\<rparr>
            (broadcast (\<lambda>c. None) (info ''hi'') (Some 2) \<lparr>clients = [1, 2], trace = []\<rparr>))
   \<and> \<not> io_outside_lock False (new_events \<lparr>clients = [1, 2], trace = []\<rparr>
            (broadcast (\<lambda>c. None) (info ''hi'') (Some 2) \<lparr>clients = [1, 2], trace = []\<rparr>))
   \<and> io_outside_lock False (new_events \<lparr>clients = [1, 2], trace = []\<rparr>
            (snd (handle_msg (\<lambda>c. None) 9 1 (PDict [(''type'', PStr ''sync_request'')])
                    \<lparr>clients = [1, 2], trace = []\<rparr>)))"
  using fan_out_under_lock [of "\<lparr>clients = [1, 2], trace = []\<rparr>" "\<lambda>c. None" "info ''hi''" "Some 2"
      "[(''type'', PStr ''sync_request'')]" 9 1]
  by (simp add: new_events_def broadcast_eq sends_append)

section \<open>The rounding function\<close>

text \<open>
  What \<open>rnd\<close> does, apart from the examples below: \<open>floor_log2\<close> is the binary exponent,
  the result of \<open>rnd\<close> is a multiple \<open>m * 2 ^ e\<close> of the spacing with \<open>\<bar>m\<bar> \<le> 2 ^ 53\<close>, at
  most half a spacing away from its argument, and a number that is a float already is
  rounded to itself.
\<close>

lemma of_int_le_pow2: "i \<le> 2 ^ k \<Longrightarrow> (of_int i :: real) \<le> 2 ^ k"
proof -
  assume "i \<le> 2 ^ k"
  then have "(of_int i :: real) \<le> of_int (2 ^ k)" by (simp only: of_int_le_iff)
  then show ?thesis by simp
qed

lemma pow2_le_of_int: "2 ^ k \<le> i \<Longrightarrow> 2 ^ k \<le> (of_int i :: real)"
proof -
  assume "2 ^ k \<le> i"
  then have "(of_int (2 ^ k) :: real) \<le> of_int i" by (simp only: of_int_le_iff)
  then show ?thesis by simp
qed

lemma floor_log2_bounds:
  assumes "0 < x"
  shows "2 powi floor_log2 x \<le> x \<and> x < 2 powi (floor_log2 x + 1)"
proof (cases "1 \<le> x")
  case True
  define n where "n = \<lfloor>x\<rfloor>"
  have n: "0 < n" using True by (simp add: n_def)
  have nx: "of_int n \<le> x" "x < of_int n + 1"
    by (simp_all add: n_def)
  define k where "k = nat (bitlen n - 1)"
  have b: "2 ^ k \<le> n" "n < 2 ^ (k + 1)"
  proof -
    have "1 \<le> bitlen n" using n by (simp add: bitlen_alt_def)
    then have "nat (bitlen n) = k + 1" by (simp add: k_def)
    with bitlen_bounds [OF n] show "2 ^ k \<le> n" "n < 2 ^ (k + 1)"
      by (simp_all add: k_def)
  qed
  have fl: "floor_log2 x = int k"
  proof -
    have "1 \<le> bitlen n" using n by (simp add: bitlen_alt_def)
    then show ?thesis using True by (simp add: floor_log2_def n_def k_def)
  qed
  have "(2::real) ^ k \<le> of_int n"
    using b(1) by (rule pow2_le_of_int)
  then have lo: "(2::real) ^ k \<le> x" using nx(1) by linarith
  have "n + 1 \<le> 2 ^ (k + 1)" using b(2) by linarith
  then have "of_int (n + 1) \<le> (2::real) ^ (k + 1)"
    by (rule of_int_le_pow2)
  then have hi: "x < (2::real) ^ (k + 1)" using nx(2) by simp
  have "(2::real) powi (int k + 1) = 2 ^ (k + 1)"
    using power_int_of_nat [of "2::real" "k + 1"] by (simp add: ac_simps)
  with lo hi show ?thesis by (simp add: fl)
next
  case False
  then have x1: "x < 1" by simp
  define m where "m = \<lceil>1 / x\<rceil> - 1"
  have y: "1 < 1 / x" using assms x1 by simp
  then have "2 \<le> \<lceil>1 / x\<rceil>" by linarith
  then have m: "0 < m" by (simp add: m_def)
  have my: "of_int m < 1 / x" "1 / x \<le> of_int m + 1"
    unfolding m_def by linarith+
  define k where "k = nat (bitlen m - 1)"
  have bl: "bitlen m = int k + 1"
  proof -
    have "1 \<le> bitlen m" using m by (simp add: bitlen_alt_def)
    then show ?thesis by (simp add: k_def)
  qed
  have b: "2 ^ k \<le> m" "m < 2 ^ (k + 1)"
  proof -
    have "nat (bitlen m) = k + 1" using bl by simp
    with bitlen_bounds [OF m] show "2 ^ k \<le> m" "m < 2 ^ (k + 1)"
      by (simp_all add: k_def)
  qed
  have fl: "floor_log2 x = - (int k + 1)"
    using False bl by (simp add: floor_log2_def m_def)
  have "(2::real) ^ k \<le> of_int m"
    using b(1) by (rule pow2_le_of_int)
  then have "(2::real) ^ k < 1 / x" using my(1) by linarith
  then have hi: "x < 1 / 2 ^ k"
    using assms by (simp add: field_simps)
  have "m + 1 \<le> 2 ^ (k + 1)" using b(2) by linarith
  then have "of_int (m + 1) \<le> (2::real) ^ (k + 1)"
    by (rule of_int_le_pow2)
  then have "1 / x \<le> (2::real) ^ (k + 1)" using my(2) by simp
  then have lo: "1 / 2 ^ (k + 1) \<le> x"
    using assms by (simp add: field_simps)
  have p1: "(2::real) powi (- (int k + 1)) = 1 / 2 ^ (k + 1)"
  proof -
    have "(2::real) powi (- int (k + 1)) = 1 / 2 powi int (k + 1)"
      by (rule power_int_minus_divide)
    also have "\<dots> = 1 / 2 ^ (k + 1)"
      by (simp only: power_int_of_nat)
    finally show ?thesis by (simp add: ac_simps)
  qed
  have p2: "(2::real) powi (- (int k + 1) + 1) = 1 / 2 ^ k"
  proof -
    have "- (int k + 1) + 1 = - int k" by simp
    then show ?thesis by (simp add: power_int_minus_divide)
  qed
  from lo hi show ?thesis unfolding fl p1 p2 by simp
qed

lemma round_half_even_near: "\<bar>of_int (round_half_even x) - x\<bar> \<le> 1 / 2"
  unfolding round_half_even_def Let_def by (auto; linarith)

lemma round_half_even_of_int: "round_half_even (of_int k) = k"
  by (simp add: round_half_even_def)

lemma rnd_near:
  assumes "rnd x = Finite v"
  shows "\<exists>m. v = of_int m * 2 powi max (floor_log2 \<bar>x\<bar> - 52) (- 1074)
           \<and> \<bar>m\<bar> \<le> 2 ^ 53
           \<and> \<bar>v - x\<bar> \<le> 2 powi max (floor_log2 \<bar>x\<bar> - 52) (- 1074) / 2"
proof (cases "x = 0")
  case True
  with assms have "v = 0" by (simp add: rnd_def)
  with True show ?thesis by (intro exI [of _ 0]) simp
next
  case False
  define e where "e = max (floor_log2 \<bar>x\<bar> - 52) (- 1074)"
  define m where "m = round_half_even (x / 2 powi e)"
  have p: "0 < (2::real) powi e" by simp
  have v: "v = of_int m * 2 powi e"
    using assms False by (simp add: rnd_def Let_def e_def m_def split: if_splits)
  have "\<bar>of_int m - x / 2 powi e\<bar> \<le> 1 / 2"
    unfolding m_def by (rule round_half_even_near)
  then have "\<bar>of_int m - x / 2 powi e\<bar> * 2 powi e \<le> 1 / 2 * 2 powi e"
    using p by (simp only: mult_le_cancel_right_pos)
  moreover have "\<bar>of_int m - x / 2 powi e\<bar> * 2 powi e = \<bar>v - x\<bar>"
  proof -
    have "\<bar>of_int m - x / 2 powi e\<bar> * 2 powi e = \<bar>(of_int m - x / 2 powi e) * 2 powi e\<bar>"
      using p by (simp add: abs_mult)
    also have "(of_int m - x / 2 powi e) * 2 powi e = v - x"
      using p by (simp add: v field_simps)
    finally show ?thesis .
  qed
  ultimately have near: "\<bar>v - x\<bar> \<le> 2 powi e / 2" by simp
  have small: "\<bar>m\<bar> \<le> 2 ^ 53"
  proof -
    have pos: "0 < \<bar>x\<bar>" using False by simp
    have "\<bar>x\<bar> < 2 powi (floor_log2 \<bar>x\<bar> + 1)"
      using floor_log2_bounds [OF pos] by simp
    also have "\<dots> \<le> 2 powi (e + 53)"
      by (rule power_int_increasing) (simp_all add: e_def)
    also have "\<dots> = 2 powi e * 2 ^ 53"
      by (simp add: power_int_add)
    finally have "\<bar>x\<bar> / 2 powi e < 2 ^ 53"
      using p by (simp add: field_simps)
    then have q: "\<bar>x / 2 powi e\<bar> < 2 ^ 53"
      using p by (simp add: abs_divide)
    have "\<bar>of_int m - x / 2 powi e\<bar> \<le> 1 / 2"
      unfolding m_def by (rule round_half_even_near)
    with q have "\<bar>(of_int m :: real)\<bar> < 2 ^ 53 + 1" by linarith
    then have "(of_int \<bar>m\<bar> :: real) < of_int (2 ^ 53 + 1)" by simp
    then have "\<bar>m\<bar> < 2 ^ 53 + 1" by (simp only: of_int_less_iff)
    then show ?thesis by simp
  qed
  from v small near show ?thesis unfolding e_def by blast
qed

lemma rnd_exact:
  assumes m: "\<bar>m\<bar> < 2 ^ 53" and k: "- 1074 \<le> k"
    and range: "\<bar>of_int m * 2 powi k\<bar> < (2::real) ^ 1024"
  shows "rnd (of_int m * 2 powi k) = Finite (of_int m * 2 powi k)"
proof (cases "m = 0")
  case True
  then show ?thesis by (simp add: rnd_def)
next
  case False
  define x :: real where "x = of_int m * 2 powi k"
  have x0: "x \<noteq> 0" using False by (simp add: x_def)
  then have pos: "0 < \<bar>x\<bar>" by simp
  define e where "e = max (floor_log2 \<bar>x\<bar> - 52) (- 1074)"
  have "(of_int \<bar>m\<bar> :: real) < of_int (2 ^ 53)"
    using m by (simp only: of_int_less_iff)
  then have "\<bar>(of_int m :: real)\<bar> < 2 ^ 53" by simp
  then have "\<bar>x\<bar> < 2 ^ 53 * 2 powi k"
    by (simp add: x_def abs_mult)
  also have "\<dots> = 2 powi (k + 53)"
    by (simp add: power_int_add)
  finally have "2 powi floor_log2 \<bar>x\<bar> < (2::real) powi (k + 53)"
    using floor_log2_bounds [OF pos] by linarith
  then have lt: "2 powi floor_log2 \<bar>x\<bar> < (2::real) powi (k + 53)" .
  have "floor_log2 \<bar>x\<bar> < k + 53"
  proof (rule ccontr)
    assume "\<not> floor_log2 \<bar>x\<bar> < k + 53"
    then have "k + 53 \<le> floor_log2 \<bar>x\<bar>" by simp
    then have "(2::real) powi (k + 53) \<le> 2 powi floor_log2 \<bar>x\<bar>"
      by (rule power_int_increasing) simp
    with lt show False by linarith
  qed
  then have ek: "e \<le> k" using k by (simp add: e_def)
  define d where "d = nat (k - e)"
  have kd: "k = e + int d" using ek by (simp add: d_def)
  have "(2::real) powi k = 2 powi e * 2 ^ d"
    unfolding kd by (simp add: power_int_add)
  then have q: "x / 2 powi e = of_int (m * 2 ^ d)"
    by (simp add: x_def)
  have "of_int (round_half_even (x / 2 powi e)) * 2 powi e = x"
    unfolding q round_half_even_of_int using \<open>(2::real) powi k = 2 powi e * 2 ^ d\<close>
    by (simp add: x_def)
  then show ?thesis
    using x0 range unfolding rnd_def Let_def e_def [symmetric] x_def [symmetric]
    by simp
qed

section \<open>The clock\<close>

text \<open>Unfolding \<open>rnd\<close> at a given number, and rounding a power of two beyond the range.\<close>

lemmas rnd_eval = rnd_def floor_log2_def round_half_even_def compute_bitlen

lemma floor_log2_pow2: "floor_log2 (2 ^ n) = int n"
proof -
  have "\<lfloor>(2::real) ^ n\<rfloor> = 2 ^ n"
    by (metis floor_of_int of_int_numeral of_int_power)
  moreover have "bitlen 1 = 1"
    by (simp add: compute_bitlen)
  ultimately show ?thesis using bitlen_pow2 [of 1 n] by (simp add: floor_log2_def)
qed

lemma rnd_pow2_overflow:
  assumes "1024 \<le> n"
  shows "rnd (2 ^ n) = PosInf"
proof -
  have e: "max (floor_log2 \<bar>(2::real) ^ n\<bar> - 52) (- 1074) = int (n - 52)"
    using assms by (simp add: floor_log2_pow2)
  have p: "(2::real) powi int (n - 52) = 2 ^ (n - 52)"
    by simp
  have s: "(2::real) ^ n = of_int (2 ^ 52) * 2 ^ (n - 52)"
  proof -
    have "n = 52 + (n - 52)" using assms by simp
    then have "(2::real) ^ n = 2 ^ 52 * 2 ^ (n - 52)"
      by (metis power_add)
    then show ?thesis by simp
  qed
  then have q: "(2::real) ^ n / 2 ^ (n - 52) = of_int (2 ^ 52)"
    by simp
  have v: "of_int (round_half_even ((2::real) ^ n / 2 powi int (n - 52))) * 2 powi int (n - 52)
           = (2::real) ^ n"
    unfolding p q round_half_even_of_int using s by simp
  have big: "(2::real) ^ 1024 \<le> 2 ^ n"
    by (rule power_increasing) (use assms in simp_all)
  show ?thesis
    unfolding rnd_def e Let_def v using big by simp
qed

lemma to_float_huge:
  "to_float (PInt (2 ^ 1024)) = Inl (OverflowError ''int too large to convert to float'')"
proof -
  have "rnd (of_int (2 ^ 1024)) = PosInf"
    using rnd_pow2_overflow [of 1024] by simp
  then show ?thesis by simp
qed

text \<open>
  Two roundings: the \<^verbatim>\<open>int\<close> \<open>2 ^ 53 + 1\<close> lies between two floats and goes to the even
  one, and \<^verbatim>\<open>now_local()\<close> of a clock started at \<^verbatim>\<open>1.3\<close> and read at \<^verbatim>\<open>3.6\<close> is
  \<^verbatim>\<open>3.5999999999999996\<close>.
\<close>

lemma to_float_rounds: "to_float (PInt (2 ^ 53 + 1)) = Inr (Finite (2 ^ 53))"
  by (simp add: rnd_eval)

lemma now_local_rounds:
  "now_local (clock_init (5854679515581645 / 2 ^ 52)) (8106479329266893 / 2 ^ 51)
     = Finite (2026619832316723 / 2 ^ 49)"
  by (simp add: now_local_def clock_init_def DRIFT_PER_SEC_def fsub_def rnd_eval)

text \<open>
  Claim C4 reads: for all numeric inputs the offset is set to
  \<open>server_time + (t_recv - t_send) / 2 - t_recv\<close>. An \<^verbatim>\<open>int\<close> passes as \<^verbatim>\<open>server_time\<close>,
  and for the \<^verbatim>\<open>int\<close> \<open>2 ^ 1024\<close> the addition raises \<^verbatim>\<open>OverflowError\<close>: no offset is set.
  Where an offset is set it is the result of binary64 arithmetic, which is not the real
  number that the formula gives: for the floats \<^verbatim>\<open>0.1\<close>, \<^verbatim>\<open>0.3\<close>, \<^verbatim>\<open>0.2\<close> the offset
  stored is \<^verbatim>\<open>0.14999999999999997\<close>, one part in \<open>2 ^ 56\<close> below the exact value.
\<close>

theorem cristian_counterexample:
  "apply_cristian (Finite 100) (PInt (2 ^ 1024)) (Finite 102) (clock_init 100)
     = Inl (OverflowError ''int too large to convert to float'')
   \<and> apply_cristian (Finite (3602879701896397 / 2 ^ 55)) (PFloat (5404319552844595 / 2 ^ 54))
        (Finite (3602879701896397 / 2 ^ 54)) (clock_init 0)
     = Inr ((clock_init 0)\<lparr>offset := Finite (2702159776422297 / 2 ^ 54)\<rparr>)
   \<and> (5404319552844595 / 2 ^ 54 + (3602879701896397 / 2 ^ 54 - 3602879701896397 / 2 ^ 55) / 2
        - 3602879701896397 / 2 ^ 54 :: real) = 2702159776422297 / 2 ^ 54 + 1 / 2 ^ 56"
proof (intro conjI)
  show "apply_cristian (Finite 100) (PInt (2 ^ 1024)) (Finite 102) (clock_init 100)
     = Inl (OverflowError ''int too large to convert to float'')"
    unfolding apply_cristian_def to_float_huge by simp
  show "apply_cristian (Finite (3602879701896397 / 2 ^ 55)) (PFloat (5404319552844595 / 2 ^ 54))
        (Finite (3602879701896397 / 2 ^ 54)) (clock_init 0)
     = Inr ((clock_init 0)\<lparr>offset := Finite (2702159776422297 / 2 ^ 54)\<rparr>)"
    by (simp add: apply_cristian_def fsub_def rnd_eval)
  show "(5404319552844595 / 2 ^ 54 + (3602879701896397 / 2 ^ 54 - 3602879701896397 / 2 ^ 55) / 2
        - 3602879701896397 / 2 ^ 54 :: real) = 2702159776422297 / 2 ^ 54 + 1 / 2 ^ 56"
    by simp
qed

text \<open>
  Claim C4 as the code has it: for floats \<open>t_send\<close> and \<open>t_recv\<close> and a \<open>server_time\<close> that
  is a float, or an \<^verbatim>\<open>int\<close> or \<^verbatim>\<open>bool\<close> within the range of a float, \<^verbatim>\<open>apply_cristian\<close>
  sets the offset to the binary64 value of \<open>server_time + (t_recv - t_send) / 2.0 - t_recv\<close>,
  each operation rounded to the nearest float, whatever the offset was before; where the
  conversion of \<open>server_time\<close> raises, that exception is raised and no offset is set.
  \<^verbatim>\<open>now_synced()\<close> is the binary64 sum of \<^verbatim>\<open>now_local()\<close> and the offset, and
  \<^verbatim>\<open>now_local()\<close> does not depend on the offset. For \<open>t_send = 100.0\<close>,
  \<open>server_time = 205.0\<close>, \<open>t_recv = 102.0\<close> the offset is \<open>104.0\<close>, and \<^verbatim>\<open>now_synced()\<close> at
  local time \<open>102.0\<close> is then \<open>206.0\<close>.
\<close>

theorem cristian_offset:
  "(to_float server_time = Inr st \<longrightarrow>
      apply_cristian t_send server_time t_recv clk
        = Inr (clk\<lparr>offset := fsub (fadd st (fhalf (fsub t_recv t_send))) t_recv\<rparr>)
      \<and> apply_cristian t_send server_time t_recv (clk\<lparr>offset := old\<rparr>)
        = Inr (clk\<lparr>offset := fsub (fadd st (fhalf (fsub t_recv t_send))) t_recv\<rparr>))
   \<and> (to_float server_time = Inl e \<longrightarrow> apply_cristian t_send server_time t_recv clk = Inl e)
   \<and> now_synced clk t = fadd (now_local clk t) (offset clk)
   \<and> now_local (clk\<lparr>offset := new\<rparr>) t = now_local clk t
   \<and> apply_cristian (Finite 100) (PFloat 205) (Finite 102) clk = Inr (clk\<lparr>offset := Finite 104\<rparr>)
   \<and> (now_local clk t = Finite 102 \<longrightarrow> now_synced (clk\<lparr>offset := Finite 104\<rparr>) t = Finite 206)"
proof (intro conjI impI)
  assume "to_float server_time = Inr st"
  then show "apply_cristian t_send server_time t_recv clk
        = Inr (clk\<lparr>offset := fsub (fadd st (fhalf (fsub t_recv t_send))) t_recv\<rparr>)"
    and "apply_cristian t_send server_time t_recv (clk\<lparr>offset := old\<rparr>)
        = Inr (clk\<lparr>offset := fsub (fadd st (fhalf (fsub t_recv t_send))) t_recv\<rparr>)"
    by (simp_all add: apply_cristian_def)
next
  assume "to_float server_time = Inl e"
  then show "apply_cristian t_send server_time t_recv clk = Inl e"
    by (simp add: apply_cristian_def)
next
  show "now_synced clk t = fadd (now_local clk t) (offset clk)"
    by (simp add: now_synced_def)
  show "now_local (clk\<lparr>offset := new\<rparr>) t = now_local clk t"
    by (simp add: now_local_def)
  show "apply_cristian (Finite 100) (PFloat 205) (Finite 102) clk = Inr (clk\<lparr>offset := Finite 104\<rparr>)"
    by (simp add: apply_cristian_def fsub_def rnd_eval)
next
  assume "now_local clk t = Finite 102"
  moreover have "now_local (clk\<lparr>offset := Finite 104\<rparr>) t = now_local clk t"
    by (simp add: now_local_def)
  ultimately show "now_synced (clk\<lparr>offset := Finite 104\<rparr>) t = Finite 206"
    by (simp add: now_synced_def rnd_eval)
qed

theorem cristian_offset_witness:
  "to_float (PFloat 205) = Inr (Finite 205)
   \<and> apply_cristian (Finite 100) (PFloat 205) (Finite 102) (clock_init 100)
       = Inr ((clock_init 100)\<lparr>offset := Finite 104\<rparr>)
   \<and> to_float (PInt (2 ^ 1024)) = Inl (OverflowError ''int too large to convert to float'')
   \<and> apply_cristian (Finite 100) (PInt (2 ^ 1024)) (Finite 102) (clock_init 100)
       = Inl (OverflowError ''int too large to convert to float'')
   \<and> now_local (clock_init 100) 102 = Finite 102
   \<and> now_synced ((clock_init 100)\<lparr>offset := Finite 104\<rparr>) 102 = Finite 206"
proof -
  have f: "to_float (PFloat 205) = Inr (Finite 205)"
    by simp
  have l: "now_local (clock_init 100) 102 = Finite 102"
    by (simp add: now_local_def clock_init_def DRIFT_PER_SEC_def fsub_def rnd_eval)
  show ?thesis
    using f l to_float_huge
      cristian_offset [where server_time = "PFloat 205" and st = "Finite 205"
        and t_send = "Finite 100" and t_recv = "Finite 102" and clk = "clock_init 100" and t = 102]
      cristian_offset [where server_time = "PInt (2 ^ 1024)"
        and e = "OverflowError ''int too large to convert to float''"
        and t_send = "Finite 100" and t_recv = "Finite 102" and clk = "clock_init 100"]
    by simp
qed

section \<open>The synchronisation round\<close>

text \<open>
  Claim C2 reads: after the waiting step the messages that are not a \<^verbatim>\<open>sync_reply\<close>
  are in the queue in their original order. The loop returns a message with
  \<^verbatim>\<open>ui_queue.put\<close>, which appends at the tail: with the queue \<open>a, reply, b\<close> the first turn
  moves \<open>a\<close> behind \<open>b\<close>, the second takes the reply, and the queue is left as \<open>b, a\<close>.
\<close>

theorem requeue_order_counterexample:
  "wait_reply [([], []), ([], []), ([], [])] [info ''a'', sync_reply 5, info ''b'']
     = (Inr (Some (sync_reply 5)), [info ''b'', info ''a''], [([], []), ([], [])])
   \<and> filter (\<lambda>m. \<not> is_sync_reply m) [info ''a'', sync_reply 5, info ''b''] = [info ''a'', info ''b'']
   \<and> filter (\<lambda>m. \<not> is_sync_reply m) [info ''b'', info ''a''] = [info ''b'', info ''a'']
   \<and> [info ''b'', info ''a''] \<noteq> [info ''a'', info ''b'']"
  by (simp add: info_def sync_reply_def dict_get_def is_sync_reply_def)

lemma arrivals_Cons: "arrivals ((b, w) # ts) = b @ w @ arrivals ts"
  by (simp add: arrivals_def)

lemma wait_reply_conserves:
  "wait_reply ts q = (Inr r, q', rest) \<Longrightarrow>
     mset q' + mset (case r of None \<Rightarrow> [] | Some m \<Rightarrow> [m]) + mset (arrivals rest)
       = mset q + mset (arrivals ts)"
proof (induction ts q rule: wait_reply.induct)
  case (1 q)
  then show ?case by (simp add: arrivals_def)
next
  case (2 before between ts q)
  show ?case
  proof (cases "q @ before")
    case Nil
    with 2 show ?thesis by (simp add: arrivals_Cons)
  next
    case (Cons msg q0)
    then have m: "mset q + mset before = add_mset msg (mset q0)"
      by (metis mset.simps(2) mset_append)
    show ?thesis
    proof (cases "py_get msg ''type'' PNone")
      case (Inl e)
      with 2 Cons show ?thesis by simp
    next
      case (Inr mtype)
      show ?thesis
      proof (cases "mtype = PStr ''sync_reply''")
        case True
        with 2(3) Cons Inr have "r = Some msg" "q' = q0" "rest = ([], between) # ts"
          by simp_all
        then show ?thesis using m by (simp add: arrivals_Cons)
      next
        case False
        with 2(3) Cons Inr have "wait_reply ts (q0 @ between @ [msg]) = (Inr r, q', rest)"
          by simp
        from 2(2) [OF Cons Inr False this] show ?thesis
          using m by (simp add: arrivals_Cons)
      qed
    qed
  qed
qed

lemma wait_reply_is_reply:
  "wait_reply ts q = (Inr (Some m), q', rest) \<Longrightarrow> is_sync_reply m"
proof (induction ts q rule: wait_reply.induct)
  case (1 q)
  then show ?case by simp
next
  case (2 before between ts q)
  then show ?case
    by (auto simp add: is_sync_reply_def split: list.splits sum.splits if_splits)
qed

text \<open>
  Claim C2 as the code has it: when the waiting step ends without an exception, no message
  has been lost or duplicated: the messages of the final queue, the reply taken (at most
  one, and it is a \<^verbatim>\<open>sync_reply\<close>) and the messages still to arrive are, as a multiset,
  the messages of the original queue and all arrivals. So the messages that are not a
  \<^verbatim>\<open>sync_reply\<close> are all still there, each as often as before; their order is not
  promised, since a message taken is put back at the tail.
\<close>

theorem requeue_conserves:
  "wait_reply ts q = (Inr r, q', rest) \<Longrightarrow>
     mset q' + mset (case r of None \<Rightarrow> [] | Some m \<Rightarrow> [m]) + mset (arrivals rest)
       = mset q + mset (arrivals ts)
   \<and> (\<forall>m. r = Some m \<longrightarrow> is_sync_reply m)
   \<and> mset (filter (\<lambda>m. \<not> is_sync_reply m) (q' @ arrivals rest))
       = mset (filter (\<lambda>m. \<not> is_sync_reply m) (q @ arrivals ts))
   \<and> (\<forall>msg mtype q0 between ts0.
         py_get msg ''type'' PNone = Inr mtype \<and> mtype \<noteq> PStr ''sync_reply''
         \<longrightarrow> wait_reply (([], between) # ts0) (msg # q0) = wait_reply ts0 (q0 @ between @ [msg]))"
proof (intro conjI allI impI)
  assume w: "wait_reply ts q = (Inr r, q', rest)"
  show c: "mset q' + mset (case r of None \<Rightarrow> [] | Some m \<Rightarrow> [m]) + mset (arrivals rest)
       = mset q + mset (arrivals ts)"
    by (rule wait_reply_conserves [OF w])
  show r: "is_sync_reply m" if "r = Some m" for m
    using w that wait_reply_is_reply by blast
  have "filter_mset (\<lambda>m. \<not> is_sync_reply m)
          (mset q' + mset (case r of None \<Rightarrow> [] | Some m \<Rightarrow> [m]) + mset (arrivals rest))
        = filter_mset (\<lambda>m. \<not> is_sync_reply m) (mset q + mset (arrivals ts))"
    by (simp only: c)
  moreover have "filter_mset (\<lambda>m. \<not> is_sync_reply m) (mset (case r of None \<Rightarrow> [] | Some m \<Rightarrow> [m])) = {#}"
    using r by (cases r) simp_all
  ultimately show "mset (filter (\<lambda>m. \<not> is_sync_reply m) (q' @ arrivals rest))
       = mset (filter (\<lambda>m. \<not> is_sync_reply m) (q @ arrivals ts))"
    by simp
next
  fix msg mtype q0 between ts0
  assume "py_get msg ''type'' PNone = Inr mtype \<and> mtype \<noteq> PStr ''sync_reply''"
  then show "wait_reply (([], between) # ts0) (msg # q0) = wait_reply ts0 (q0 @ between @ [msg])"
    by simp
qed

theorem requeue_conserves_witness:
  "wait_reply [([], []), ([], [info ''c''])] [info ''a'', sync_reply 5, info ''b'']
     = (Inr (Some (sync_reply 5)), [info ''b'', info ''a''], [([], [info ''c''])])
   \<and> mset [info ''b'', info ''a''] + mset [sync_reply 5] + mset (arrivals [([], [info ''c''])])
       = mset [info ''a'', sync_reply 5, info ''b''] + mset (arrivals [([], []), ([], [info ''c''])])
   \<and> is_sync_reply (sync_reply 5)"
proof -
  have h: "wait_reply [([], []), ([], [info ''c''])] [info ''a'', sync_reply 5, info ''b'']
     = (Inr (Some (sync_reply 5)), [info ''b'', info ''a''], [([], [info ''c''])])"
    by (simp add: info_def sync_reply_def dict_get_def)
  show ?thesis
    using h requeue_conserves [OF h] by simp
qed

text \<open>
  A round of a running client that does not end with a reply whose \<^verbatim>\<open>server_time\<close> passes
  \<^verbatim>\<open>isinstance(server_time, (int, float))\<close> leaves the offset as it was, reports one line in
  the chat window, keeps the client running and schedules the next round. The line is
  \<^verbatim>\<open>[sync] no reply\<close> when the waiting step ends with no reply,
  \<^verbatim>\<open>[sync] invalid server time\<close> when the reply's \<^verbatim>\<open>server_time\<close> fails the test, and
  \<^verbatim>\<open>[sync error]\<close> with the exception's text when sending or waiting raised.
\<close>

lemma failed_round_keeps_offset:
  assumes run: "running c"
    and wait: "wait_reply ticks (ui_queue c) = (res, q, rest)"
    and bad: "\<forall>reply. send_err = None \<and> res = Inr (Some reply) \<longrightarrow>
                (\<exists>v. py_get reply ''server_time'' PNone = Inr v \<and> \<not> is_number v)"
  shows "offset (clock (sync_with_server t0 send_err ticks t1 c)) = offset (clock c)
       \<and> chat (sync_with_server t0 send_err ticks t1 c)
           = chat c @ [case send_err of
                         Some e \<Rightarrow> ''[sync error] '' @ str_error e
                       | None \<Rightarrow>
                           (case res of
                              Inl e \<Rightarrow> ''[sync error] '' @ str_error e
                            | Inr None \<Rightarrow> ''[sync] no reply''
                            | Inr (Some reply) \<Rightarrow> ''[sync] invalid server time'')]
       \<and> timers (sync_with_server t0 send_err ticks t1 c) = timers c @ [(5000, SyncWithServer)]
       \<and> running (sync_with_server t0 send_err ticks t1 c)"
proof (cases send_err)
  case (Some e)
  with run show ?thesis
    by (simp add: sync_with_server_def sync_round_def append_chat_def)
next
  case None
  note sent = None
  show ?thesis
  proof (cases res)
    case (Inl e)
    with run wait sent show ?thesis
      by (simp add: sync_with_server_def sync_round_def append_chat_def)
  next
    case (Inr r)
    show ?thesis
    proof (cases r)
      case None
      with run wait sent Inr show ?thesis
        by (simp add: sync_with_server_def sync_round_def append_chat_def)
    next
      case (Some reply)
      with bad sent Inr obtain v
        where "py_get reply ''server_time'' PNone = Inr v" "\<not> is_number v"
        by blast
      with Some run wait sent Inr show ?thesis
        by (simp add: sync_with_server_def sync_round_def append_chat_def)
    qed
  qed
qed

text \<open>Two such rounds: one with no reply, one with a text as \<^verbatim>\<open>server_time\<close>.\<close>

lemma failed_round_keeps_offset_example:
  "running \<lparr>clock = clock_init 0, running = True, ui_queue = [info ''a''], chat = [], sent = [],
            timers = []\<rparr>
   \<and> wait_reply [([], [])] [info ''a''] = (Inr None, [info ''a''], [])
   \<and> offset (clock (sync_with_server 10 None [([], [])] 11
        \<lparr>clock = clock_init 0, running = True, ui_queue = [info ''a''], chat = [], sent = [],
         timers = []\<rparr>)) = Finite 0
   \<and> chat (sync_with_server 10 None [([], [])] 11
        \<lparr>clock = clock_init 0, running = True, ui_queue = [info ''a''], chat = [], sent = [],
         timers = []\<rparr>) = [''[sync] no reply'']
   \<and> timers (sync_with_server 10 None [([], [])] 11
        \<lparr>clock = clock_init 0, running = True, ui_queue = [info ''a''], chat = [], sent = [],
         timers = []\<rparr>) = [(5000, SyncWithServer)]
   \<and> wait_reply [([], [])] [PDict [(''type'', PStr ''sync_reply''), (''server_time'', PStr ''noon'')]]
       = (Inr (Some (PDict [(''type'', PStr ''sync_reply''), (''server_time'', PStr ''noon'')])), [],
          [([], [])])
   \<and> offset (clock (sync_with_server 10 None [([], [])] 11
        \<lparr>clock = clock_init 0, running = True,
         ui_queue = [PDict [(''type'', PStr ''sync_reply''), (''server_time'', PStr ''noon'')]],
         chat = [], sent = [], timers = []\<rparr>)) = Finite 0
   \<and> chat (sync_with_server 10 None [([], [])] 11
        \<lparr>clock = clock_init 0, running = True,
         ui_queue = [PDict [(''type'', PStr ''sync_reply''), (''server_time'', PStr ''noon'')]],
         chat = [], sent = [], timers = []\<rparr>) = [''[sync] invalid server time'']"
proof -
  let ?c = "\<lparr>clock = clock_init 0, running = True, ui_queue = [info ''a''], chat = [], sent = [],
             timers = ([] :: (nat \<times> task) list)\<rparr>"
  let ?m = "PDict [(''type'', PStr ''sync_reply''), (''server_time'', PStr ''noon'')]"
  let ?d = "\<lparr>clock = clock_init 0, running = True, ui_queue = [?m], chat = [], sent = [],
             timers = ([] :: (nat \<times> task) list)\<rparr>"
  have w: "wait_reply [([], [])] (ui_queue ?c) = (Inr None, [info ''a''], [])"
    by (simp add: info_def dict_get_def)
  have b: "\<forall>reply. (None :: error option) = None \<and> (Inr None :: error + pyval option) = Inr (Some reply) \<longrightarrow>
             (\<exists>v. py_get reply ''server_time'' PNone = Inr v \<and> \<not> is_number v)"
    by simp
  have r: "running ?c" by simp
  have w': "wait_reply [([], [])] (ui_queue ?d) = (Inr (Some ?m), [], [([], [])])"
    by (simp add: dict_get_def)
  have b': "\<forall>reply. (None :: error option) = None \<and> (Inr (Some ?m) :: error + pyval option) = Inr (Some reply) \<longrightarrow>
             (\<exists>v. py_get reply ''server_time'' PNone = Inr v \<and> \<not> is_number v)"
    by (simp add: dict_get_def)
  have r': "running ?d" by simp
  show ?thesis
    using w failed_round_keeps_offset [OF r w b, of 10 11]
          w' failed_round_keeps_offset [OF r' w' b', of 10 11]
    by (simp add: clock_init_def)
qed

text \<open>
  The same holds when the reply's \<^verbatim>\<open>server_time\<close> passes the test and the arithmetic of
  \<^verbatim>\<open>apply_cristian\<close> raises, as it does for an \<^verbatim>\<open>int\<close> beyond the range of a float: the
  offset stays and \<^verbatim>\<open>[sync error]\<close> is reported with the exception's text.
\<close>

lemma raising_round_keeps_offset:
  assumes run: "running c"
    and wait: "wait_reply ticks (ui_queue c) = (Inr (Some reply), q, rest)"
    and get: "py_get reply ''server_time'' PNone = Inr v"
    and num: "is_number v"
    and raises: "to_float v = Inl e"
  shows "offset (clock (sync_with_server t0 None ticks t1 c)) = offset (clock c)
       \<and> chat (sync_with_server t0 None ticks t1 c) = chat c @ [''[sync error] '' @ str_error e]
       \<and> timers (sync_with_server t0 None ticks t1 c) = timers c @ [(5000, SyncWithServer)]
       \<and> running (sync_with_server t0 None ticks t1 c)"
  using assms
  by (simp add: sync_with_server_def sync_round_def append_chat_def apply_cristian_def)

text \<open>
  Claim C5 reads: when the reply's \<^verbatim>\<open>server_time\<close> is not numeric, the offset after the
  round is the offset before it and a failure is reported. A JSON \<^verbatim>\<open>true\<close> is not a number,
  but it passes \<^verbatim>\<open>isinstance(server_time, (int, float))\<close>, because a Python \<^verbatim>\<open>bool\<close> is an
  \<^verbatim>\<open>int\<close>: for the reply \<^verbatim>\<open>{"type": "sync_reply", "server_time": true}\<close>, taken by a
  client whose clock started at \<open>0.0\<close>, with \<open>t_send\<close> read at \<open>10.0\<close> and \<open>t_recv\<close> at \<open>11.0\<close>,
  the round computes with \<^verbatim>\<open>True\<close> as \<open>1\<close>, moves the offset from \<open>0.0\<close> to
  \<open>1 + 0.5 - 11.0 = - 9.5\<close> and reports \<^verbatim>\<open>[sync] clock adjusted\<close>.
\<close>

theorem bool_reply_adjusts_clock:
  "sync_with_server 10 None [([], [])] 11
     \<lparr>clock = clock_init 0, running = True,
      ui_queue = [PDict [(''type'', PStr ''sync_reply''), (''server_time'', PBool True)]],
      chat = [], sent = [], timers = []\<rparr>
   = \<lparr>clock = (clock_init 0)\<lparr>offset := Finite (- 19 / 2)\<rparr>, running = True, ui_queue = [],
      chat = [''[sync] clock adjusted''],
      sent = [PDict [(''type'', PStr ''sync_request'')]],
      timers = [(5000, SyncWithServer)]\<rparr>"
  by (simp add: sync_with_server_def sync_round_def append_chat_def dict_get_def apply_cristian_def
        now_local_def clock_init_def DRIFT_PER_SEC_def fsub_def rnd_eval)

end
